theory Spec2Isabelle
  imports Main
begin

section \<open>Okofan: log-file index and log-record parsing\<close>

text \<open>
  A shallow embedding of \<^verbatim>\<open>src/okofan.py\<close>: the functions \<^verbatim>\<open>getlogdate\<close>,
  \<^verbatim>\<open>strip_lines\<close>, \<^verbatim>\<open>convert_time\<close>, and the methods \<^verbatim>\<open>open_action\<close>,
  \<^verbatim>\<open>load_log_list\<close> and \<^verbatim>\<open>item_activated\<close> of \<^verbatim>\<open>MainWindow\<close>.

  Text is a \<^typ>\<open>string\<close>: a list of 8-bit characters, read as the code points
  0..255 for Python's \<^verbatim>\<open>str\<close> and as bytes for Python's \<^verbatim>\<open>bytes\<close>. Every
  exception of the source is a value of \<open>error\<close>; a function that can raise returns
  \<open>error + 'a\<close> with \<open>Inl\<close> for the exception.
\<close>

subsection \<open>Exceptions\<close>

datatype error =
    ValueError
  | UnicodeDecodeError
  | OverflowError
  | TypeError
  | StopIteration
  | IndexError
  | OSError
  | CsvError
  | WideCharacter

text \<open>
  \<open>UnicodeDecodeError\<close> is a subclass of \<open>ValueError\<close> in Python, so an
  \<^verbatim>\<open>except ValueError\<close> catches both. \<open>WideCharacter\<close> is no Python exception: it
  marks a decoded code point above 255, which the text type of this theory cannot hold.
\<close>

definition is_ValueError :: "error \<Rightarrow> bool" where
  "is_ValueError e = (e = ValueError \<or> e = UnicodeDecodeError)"

subsection \<open>Characters and text\<close>

definition NUL :: char where "NUL = CHR 0x00"
definition LF :: char where "LF = CHR 0x0A"
definition CR :: char where "CR = CHR 0x0D"
definition QUOTE :: char where "QUOTE = CHR 0x22"

definition code :: "char \<Rightarrow> nat" where
  "code c = of_char c"

definition is_space :: "char \<Rightarrow> bool" where
  \<comment> \<open>\<^verbatim>\<open>str.isspace\<close> and the regular expression class \<^verbatim>\<open>\s\<close>, below code point 256\<close>
  "is_space c = (let n = code c in
     (9 \<le> n \<and> n \<le> 13) \<or> (28 \<le> n \<and> n \<le> 32) \<or> n = 133 \<or> n = 160)"

definition is_digit :: "char \<Rightarrow> bool" where
  \<comment> \<open>the regular expression class \<^verbatim>\<open>\d\<close>, below code point 256\<close>
  "is_digit c = (48 \<le> code c \<and> code c \<le> 57)"

definition in_range :: "char \<Rightarrow> char \<Rightarrow> char \<Rightarrow> bool" where
  \<comment> \<open>the character class \<^verbatim>\<open>[lo-hi]\<close>\<close>
  "in_range lo hi c = (code lo \<le> code c \<and> code c \<le> code hi)"

definition digit_val :: "char \<Rightarrow> nat" where
  "digit_val c = code c - 48"

definition strip :: "string \<Rightarrow> string" where
  \<comment> \<open>\<^verbatim>\<open>str.strip()\<close>\<close>
  "strip s = rev (dropWhile is_space (rev (dropWhile is_space s)))"

definition strip_chars :: "string \<Rightarrow> string \<Rightarrow> string" where
  \<comment> \<open>\<^verbatim>\<open>str.strip(chars)\<close>\<close>
  "strip_chars cs s =
     rev (dropWhile (\<lambda>c. c \<in> set cs) (rev (dropWhile (\<lambda>c. c \<in> set cs) s)))"

fun split_on :: "char \<Rightarrow> string \<Rightarrow> string list" where
  \<comment> \<open>\<^verbatim>\<open>str.split(sep)\<close> for a one-character separator\<close>
  "split_on sep [] = [[]]"
| "split_on sep (c # cs) =
     (if c = sep then [] # split_on sep cs
      else (case split_on sep cs of
              [] \<Rightarrow> [[c]]
            | f # fs \<Rightarrow> (c # f) # fs))"

subsection \<open>Dates and times\<close>

record datetime =
  year :: nat
  month :: nat
  day :: nat
  hour :: nat
  minute :: nat
  second :: nat

definition is_leap :: "nat \<Rightarrow> bool" where
  "is_leap y = (y mod 4 = 0 \<and> (0 < y mod 100 \<or> y mod 400 = 0))"

definition days_in_month :: "nat \<Rightarrow> nat \<Rightarrow> nat" where
  "days_in_month y m =
     (if m = 2 then (if is_leap y then 29 else 28)
      else if m = 4 \<or> m = 6 \<or> m = 9 \<or> m = 11 then 30
      else 31)"

definition make_datetime ::
  "nat \<Rightarrow> nat \<Rightarrow> nat \<Rightarrow> nat \<Rightarrow> nat \<Rightarrow> nat \<Rightarrow> error + datetime" where
  \<comment> \<open>the constructor \<^verbatim>\<open>datetime(y, m, d, H, M, S)\<close> with its range checks\<close>
  "make_datetime y m d H M S =
     (if 1 \<le> y \<and> y \<le> 9999 \<and> 1 \<le> m \<and> m \<le> 12 \<and> 1 \<le> d \<and> d \<le> days_in_month y m
         \<and> H \<le> 23 \<and> M \<le> 59 \<and> S \<le> 59
      then Inr \<lparr>year = y, month = m, day = d, hour = H, minute = M, second = S\<rparr>
      else Inl ValueError)"

subsection \<open>\<^verbatim>\<open>datetime.strptime\<close>\<close>

text \<open>
  \<^verbatim>\<open>strptime\<close> turns the format into a regular expression, one group per
  directive, and matches it at the start of the text with a backtracking matcher. Each
  directive below returns its possible matches in the matcher's order of preference, as
  pairs of the matched text and the rest; the first complete match is the one taken.
  The groups are, for \<^verbatim>\<open>%d %m %Y %H %M %S\<close>:
  \<^verbatim>\<open>3[0-1]|[1-2]\d|0[1-9]|[1-9]| [1-9]\<close>, \<^verbatim>\<open>1[0-2]|0[1-9]|[1-9]\<close>,
  \<^verbatim>\<open>\d\d\d\d\<close>, \<^verbatim>\<open>2[0-3]|[0-1]\d|\d\<close>, \<^verbatim>\<open>[0-5]\d|\d\<close>,
  \<^verbatim>\<open>6[0-1]|[0-5]\d|\d\<close>.
\<close>

type_synonym matches = "(string \<times> string) list"

definition one :: "(char \<Rightarrow> bool) \<Rightarrow> string \<Rightarrow> matches" where
  "one p s = (case s of a # r \<Rightarrow> if p a then [([a], r)] else [] | [] \<Rightarrow> [])"

definition two :: "(char \<Rightarrow> bool) \<Rightarrow> (char \<Rightarrow> bool) \<Rightarrow> string \<Rightarrow> matches" where
  "two p q s =
     (case s of
        a # b # r \<Rightarrow> if p a \<and> q b then [([a, b], r)] else []
      | _ \<Rightarrow> [])"

definition lit :: "char \<Rightarrow> string \<Rightarrow> string list" where
  "lit c s = (case s of a # r \<Rightarrow> if a = c then [r] else [] | [] \<Rightarrow> [])"

definition re_d :: "string \<Rightarrow> matches" where
  "re_d s =
     two ((=) CHR ''3'') (in_range CHR ''0'' CHR ''1'') s
     @ two (in_range CHR ''1'' CHR ''2'') is_digit s
     @ two ((=) CHR ''0'') (in_range CHR ''1'' CHR ''9'') s
     @ one (in_range CHR ''1'' CHR ''9'') s
     @ two ((=) CHR '' '') (in_range CHR ''1'' CHR ''9'') s"

definition re_m :: "string \<Rightarrow> matches" where
  "re_m s =
     two ((=) CHR ''1'') (in_range CHR ''0'' CHR ''2'') s
     @ two ((=) CHR ''0'') (in_range CHR ''1'' CHR ''9'') s
     @ one (in_range CHR ''1'' CHR ''9'') s"

definition re_Y :: "string \<Rightarrow> matches" where
  "re_Y s =
     (case s of
        a # b # c # d # r \<Rightarrow>
          if is_digit a \<and> is_digit b \<and> is_digit c \<and> is_digit d then [([a, b, c, d], r)]
          else []
      | _ \<Rightarrow> [])"

definition re_H :: "string \<Rightarrow> matches" where
  "re_H s =
     two ((=) CHR ''2'') (in_range CHR ''0'' CHR ''3'') s
     @ two (in_range CHR ''0'' CHR ''1'') is_digit s
     @ one is_digit s"

definition re_M :: "string \<Rightarrow> matches" where
  "re_M s = two (in_range CHR ''0'' CHR ''5'') is_digit s @ one is_digit s"

definition re_S :: "string \<Rightarrow> matches" where
  "re_S s =
     two ((=) CHR ''6'') (in_range CHR ''0'' CHR ''1'') s
     @ two (in_range CHR ''0'' CHR ''5'') is_digit s
     @ one is_digit s"

fun re_spaces :: "string \<Rightarrow> string list" where
  \<comment> \<open>\<^verbatim>\<open>\s+\<close>, greedy: the longest run first, then each shorter one\<close>
  "re_spaces [] = []"
| "re_spaces (c # cs) = (if is_space c then re_spaces cs @ [cs] else [])"

definition group_int :: "string \<Rightarrow> nat" where
  \<comment> \<open>\<^verbatim>\<open>int(group)\<close> on the text of a matched group: digits after optional blanks\<close>
  "group_int g = foldl (\<lambda>a c. 10 * a + digit_val c) 0 (dropWhile is_space g)"

definition match_dmY :: "string \<Rightarrow> ((string \<times> string \<times> string) \<times> string) list" where
  \<comment> \<open>the matches of the format \<^verbatim>\<open>%d.%m.%Y\<close>\<close>
  "match_dmY s =
     [((d, m, y), r5).
        (d, r1) \<leftarrow> re_d s, r2 \<leftarrow> lit CHR ''.'' r1,
        (m, r3) \<leftarrow> re_m r2, r4 \<leftarrow> lit CHR ''.'' r3,
        (y, r5) \<leftarrow> re_Y r4]"

definition strptime_dmY :: "string \<Rightarrow> error + datetime" where
  \<comment> \<open>\<^verbatim>\<open>datetime.strptime(s, '%d.%m.%Y')\<close>\<close>
  "strptime_dmY s =
     (case match_dmY s of
        [] \<Rightarrow> Inl ValueError
      | ((d, m, y), r) # _ \<Rightarrow>
          if r \<noteq> [] then Inl ValueError
          else make_datetime (group_int y) (group_int m) (group_int d) 0 0 0)"

definition match_YmdHMS ::
  "string \<Rightarrow> ((string \<times> string \<times> string \<times> string \<times> string \<times> string) \<times> string) list" where
  \<comment> \<open>the matches of the format \<^verbatim>\<open>%Y-%m-%d %H:%M:%S\<close>\<close>
  "match_YmdHMS s =
     [((y, m, d, H, M, S), r11).
        (y, r1) \<leftarrow> re_Y s, r2 \<leftarrow> lit CHR ''-'' r1,
        (m, r3) \<leftarrow> re_m r2, r4 \<leftarrow> lit CHR ''-'' r3,
        (d, r5) \<leftarrow> re_d r4, r6 \<leftarrow> re_spaces r5,
        (H, r7) \<leftarrow> re_H r6, r8 \<leftarrow> lit CHR '':'' r7,
        (M, r9) \<leftarrow> re_M r8, r10 \<leftarrow> lit CHR '':'' r9,
        (S, r11) \<leftarrow> re_S r10]"

definition strptime_YmdHMS :: "string \<Rightarrow> error + datetime" where
  \<comment> \<open>\<^verbatim>\<open>datetime.strptime(s, '%Y-%m-%d %H:%M:%S')\<close>\<close>
  "strptime_YmdHMS s =
     (case match_YmdHMS s of
        [] \<Rightarrow> Inl ValueError
      | ((y, m, d, H, M, S), r) # _ \<Rightarrow>
          if r \<noteq> [] then Inl ValueError
          else make_datetime (group_int y) (group_int m) (group_int d)
                 (group_int H) (group_int M) (group_int S))"

definition digit_char :: "nat \<Rightarrow> char" where
  "digit_char n = ''0123456789'' ! (n mod 10)"

definition pad2 :: "nat \<Rightarrow> string" where
  \<comment> \<open>\<^verbatim>\<open>'%02d' % n\<close> for \<open>n < 100\<close>\<close>
  "pad2 n = [digit_char (n div 10), digit_char n]"

definition pad4 :: "nat \<Rightarrow> string" where
  \<comment> \<open>\<^verbatim>\<open>'%04d' % n\<close> for \<open>n < 10000\<close>\<close>
  "pad4 n = [digit_char (n div 1000), digit_char (n div 100), digit_char (n div 10), digit_char n]"

definition isoformat_date :: "datetime \<Rightarrow> string" where
  \<comment> \<open>\<^verbatim>\<open>date.date().isoformat()\<close>: \<^verbatim>\<open>YYYY-MM-DD\<close>\<close>
  "isoformat_date t = pad4 (year t) @ ''-'' @ pad2 (month t) @ ''-'' @ pad2 (day t)"

subsection \<open>\<^verbatim>\<open>bytes.decode()\<close>\<close>

definition is_cont :: "char \<Rightarrow> bool" where
  "is_cont c = (128 \<le> code c \<and> code c \<le> 191)"

fun utf8_decode :: "string \<Rightarrow> nat list option" where
  \<comment> \<open>strict UTF-8: no overlong forms, no surrogates, nothing above U+10FFFF\<close>
  "utf8_decode [] = Some []"
| "utf8_decode (c # cs) =
     (let b = code c in
      if b < 128 then map_option ((#) b) (utf8_decode cs)
      else if 194 \<le> b \<and> b \<le> 223 then
        (case cs of
           c1 # r \<Rightarrow>
             if is_cont c1
             then map_option ((#) ((b - 192) * 64 + (code c1 - 128))) (utf8_decode r)
             else None
         | _ \<Rightarrow> None)
      else if 224 \<le> b \<and> b \<le> 239 then
        (case cs of
           c1 # c2 # r \<Rightarrow>
             if (if b = 224 then 160 else 128) \<le> code c1
                \<and> code c1 \<le> (if b = 237 then 159 else 191) \<and> is_cont c2
             then map_option
                    ((#) ((b - 224) * 4096 + (code c1 - 128) * 64 + (code c2 - 128)))
                    (utf8_decode r)
             else None
         | _ \<Rightarrow> None)
      else if 240 \<le> b \<and> b \<le> 244 then
        (case cs of
           c1 # c2 # c3 # r \<Rightarrow>
             if (if b = 240 then 144 else 128) \<le> code c1
                \<and> code c1 \<le> (if b = 244 then 143 else 191) \<and> is_cont c2 \<and> is_cont c3
             then map_option
                    ((#) ((b - 240) * 262144 + (code c1 - 128) * 4096
                          + (code c2 - 128) * 64 + (code c3 - 128)))
                    (utf8_decode r)
             else None
         | _ \<Rightarrow> None)
      else None)"

definition decode :: "string \<Rightarrow> error + string" where
  \<comment> \<open>\<^verbatim>\<open>s.decode()\<close> on bytes \<open>s\<close>\<close>
  "decode s =
     (case utf8_decode s of
        None \<Rightarrow> Inl UnicodeDecodeError
      | Some cps \<Rightarrow>
          if list_all (\<lambda>n. n < 256) cps then Inr (map char_of cps)
          else Inl WideCharacter)"

subsection \<open>\<^verbatim>\<open>convert_time\<close>\<close>

definition convert_time :: "string \<Rightarrow> string \<Rightarrow> error + datetime" where
  \<comment> \<open>\<^verbatim>\<open>datetime.strptime(' '.join((date, timestring.decode())), '%Y-%m-%d %H:%M:%S')\<close>\<close>
  "convert_time timestring date =
     (case decode timestring of
        Inl e \<Rightarrow> Inl e
      | Inr s \<Rightarrow> strptime_YmdHMS (date @ '' '' @ s))"

subsection \<open>Reading a file line by line\<close>

text \<open>
  A file is its text. \<^verbatim>\<open>open(filepath, newline='')\<close> yields the lines with their
  terminators kept, a line ending at \<^verbatim>\<open>\n\<close>, at \<^verbatim>\<open>\r\n\<close> or at a lone \<^verbatim>\<open>\r\<close>.
\<close>

fun file_lines :: "string \<Rightarrow> string list" where
  "file_lines [] = []"
| "file_lines (c # cs) =
     (if c = LF \<or> (c = CR \<and> (case cs of [] \<Rightarrow> True | d # _ \<Rightarrow> d \<noteq> LF))
      then [c] # file_lines cs
      else (case file_lines cs of
              [] \<Rightarrow> [[c]]
            | l # ls \<Rightarrow> (c # l) # ls))"

definition strip_lines :: "string list \<Rightarrow> string list" where
  \<comment> \<open>\<^verbatim>\<open>for line in iterable: if line.strip(): yield line\<close>\<close>
  "strip_lines iterable = filter (\<lambda>line. strip line \<noteq> []) iterable"

subsection \<open>\<^verbatim>\<open>csv.reader\<close>\<close>

text \<open>
  The reader of the \<^verbatim>\<open>csv\<close> module, in its default dialect (quote character
  \<^verbatim>\<open>"\<close>, doubled quotes, no escape character, not strict) with the delimiter
  \<^verbatim>\<open>;\<close>: a state machine fed one character at a time, and \<open>NUL\<close> at the end of
  every line. A quoted field may run over several lines, so one record can consume more
  than one line. A line that itself holds \<open>NUL\<close> is an error, which is why
  \<^verbatim>\<open>getlogdate\<close> removes these characters first.
\<close>

datatype csv_state =
    START_RECORD
  | START_FIELD
  | IN_FIELD
  | IN_QUOTED_FIELD
  | QUOTE_IN_QUOTED_FIELD
  | EAT_CRNL

record reader =
  r_fields :: "string list"
  r_field :: string
  r_state :: csv_state

definition delimiter :: char where
  "delimiter = CHR '';''"

definition field_limit :: nat where
  "field_limit = 131072"

definition parse_save_field :: "reader \<Rightarrow> reader" where
  "parse_save_field r = r\<lparr>r_fields := r_fields r @ [r_field r], r_field := []\<rparr>"

definition parse_add_char :: "reader \<Rightarrow> char \<Rightarrow> error + reader" where
  "parse_add_char r c =
     (if field_limit \<le> length (r_field r) then Inl CsvError
      else Inr (r\<lparr>r_field := r_field r @ [c]\<rparr>))"

definition start_field :: "reader \<Rightarrow> char \<Rightarrow> error + reader" where
  \<comment> \<open>the case \<open>START_FIELD\<close>, which \<open>START_RECORD\<close> falls through to\<close>
  "start_field r c =
     (if c = LF \<or> c = CR \<or> c = NUL
      then Inr ((parse_save_field r)\<lparr>r_state := (if c = NUL then START_RECORD else EAT_CRNL)\<rparr>)
      else if c = QUOTE then Inr (r\<lparr>r_state := IN_QUOTED_FIELD\<rparr>)
      else if c = delimiter then Inr (parse_save_field r)
      else (case parse_add_char r c of
              Inl e \<Rightarrow> Inl e
            | Inr r' \<Rightarrow> Inr (r'\<lparr>r_state := IN_FIELD\<rparr>)))"

definition parse_process_char :: "reader \<Rightarrow> char \<Rightarrow> error + reader" where
  "parse_process_char r c =
     (case r_state r of
        START_RECORD \<Rightarrow>
          if c = NUL then Inr r
          else if c = LF \<or> c = CR then Inr (r\<lparr>r_state := EAT_CRNL\<rparr>)
          else start_field (r\<lparr>r_state := START_FIELD\<rparr>) c
      | START_FIELD \<Rightarrow> start_field r c
      | IN_FIELD \<Rightarrow>
          if c = LF \<or> c = CR \<or> c = NUL
          then Inr ((parse_save_field r)\<lparr>r_state := (if c = NUL then START_RECORD else EAT_CRNL)\<rparr>)
          else if c = delimiter then Inr ((parse_save_field r)\<lparr>r_state := START_FIELD\<rparr>)
          else parse_add_char r c
      | IN_QUOTED_FIELD \<Rightarrow>
          if c = NUL then Inr r
          else if c = QUOTE then Inr (r\<lparr>r_state := QUOTE_IN_QUOTED_FIELD\<rparr>)
          else parse_add_char r c
      | QUOTE_IN_QUOTED_FIELD \<Rightarrow>
          if c = QUOTE
          then (case parse_add_char r c of
                  Inl e \<Rightarrow> Inl e
                | Inr r' \<Rightarrow> Inr (r'\<lparr>r_state := IN_QUOTED_FIELD\<rparr>))
          else if c = delimiter then Inr ((parse_save_field r)\<lparr>r_state := START_FIELD\<rparr>)
          else if c = LF \<or> c = CR \<or> c = NUL
          then Inr ((parse_save_field r)\<lparr>r_state := (if c = NUL then START_RECORD else EAT_CRNL)\<rparr>)
          else (case parse_add_char r c of
                  Inl e \<Rightarrow> Inl e
                | Inr r' \<Rightarrow> Inr (r'\<lparr>r_state := IN_FIELD\<rparr>))
      | EAT_CRNL \<Rightarrow>
          if c = LF \<or> c = CR then Inr r
          else if c = NUL then Inr (r\<lparr>r_state := START_RECORD\<rparr>)
          else Inl CsvError)"

fun process_chars :: "reader \<Rightarrow> string \<Rightarrow> error + reader" where
  \<comment> \<open>the characters of one line\<close>
  "process_chars r [] = Inr r"
| "process_chars r (c # cs) =
     (if c = NUL then Inl CsvError
      else (case parse_process_char r c of
              Inl e \<Rightarrow> Inl e
            | Inr r' \<Rightarrow> process_chars r' cs))"

definition process_line :: "reader \<Rightarrow> string \<Rightarrow> error + reader" where
  \<comment> \<open>one line, then the end-of-line signal\<close>
  "process_line r line =
     (case process_chars r line of
        Inl e \<Rightarrow> Inl e
      | Inr r' \<Rightarrow> parse_process_char r' NUL)"

fun iternext_loop :: "reader \<Rightarrow> string list \<Rightarrow> (error + string list) \<times> string list" where
  \<comment> \<open>lines are consumed until a record is complete; the lines left over are returned\<close>
  "iternext_loop r [] =
     (if r_field r \<noteq> [] \<or> r_state r = IN_QUOTED_FIELD
      then (Inr (r_fields (parse_save_field r)), [])
      else (Inl StopIteration, []))"
| "iternext_loop r (line # lines) =
     (case process_line r line of
        Inl e \<Rightarrow> (Inl e, lines)
      | Inr r' \<Rightarrow>
          if r_state r' = START_RECORD then (Inr (r_fields r'), lines)
          else iternext_loop r' lines)"

definition Reader_iternext :: "string list \<Rightarrow> (error + string list) \<times> string list" where
  \<comment> \<open>\<^verbatim>\<open>next(reader)\<close>\<close>
  "Reader_iternext lines =
     iternext_loop \<lparr>r_fields = [], r_field = [], r_state = START_RECORD\<rparr> lines"

subsection \<open>\<^verbatim>\<open>getlogdate\<close>\<close>

definition logfile_rows :: "string \<Rightarrow> string list" where
  \<comment> \<open>the lines the reader is given: null characters removed, blank lines dropped\<close>
  "logfile_rows text = strip_lines (map (filter (\<lambda>c. c \<noteq> NUL)) (file_lines text))"

definition getlogdate_text :: "string \<Rightarrow> error + string" where
  \<comment> \<open>the body of \<^verbatim>\<open>getlogdate\<close> on the text of the opened file\<close>
  "getlogdate_text text =
     (case Reader_iternext (logfile_rows text) of
        (Inl e, _) \<Rightarrow> Inl e
      | (Inr header, rest) \<Rightarrow>
          (case Reader_iternext rest of
             (Inl e, _) \<Rightarrow> Inl e
           | (Inr row, _) \<Rightarrow>
               (case row of
                  [] \<Rightarrow> Inl IndexError
                | first # _ \<Rightarrow>
                    (case strptime_dmY first of
                       Inl e \<Rightarrow> Inl e
                     | Inr date \<Rightarrow> Inr (isoformat_date date)))))"

subsection \<open>The file system\<close>

text \<open>
  What the program reads of the file system: the names in a directory
  (\<^verbatim>\<open>os.listdir\<close>, empty for what is no directory), the directories a directory
  pattern with wildcards stands for (what \<^verbatim>\<open>glob\<close> computes for the directory part
  of a pattern), and the text of a file (\<open>None\<close> when it cannot be opened).
\<close>

record filesystem =
  listdir :: "string \<Rightarrow> string list"
  expand_dirs :: "string \<Rightarrow> string list"
  read_text :: "string \<Rightarrow> string option"

definition getlogdate :: "filesystem \<Rightarrow> string \<Rightarrow> error + string" where
  "getlogdate fs filepath =
     (case read_text fs filepath of
        None \<Rightarrow> Inl OSError
      | Some text \<Rightarrow> getlogdate_text text)"

subsection \<open>\<^verbatim>\<open>glob.glob\<close>\<close>

text \<open>
  File-name patterns as \<^verbatim>\<open>fnmatch\<close> reads them on a POSIX system (no case
  folding): \<^verbatim>\<open>*\<close>, \<^verbatim>\<open>?\<close>, a character range \<^verbatim>\<open>[lo-hi]\<close>, and literal
  characters. Of the bracket forms only the range, the one the program writes, is
  recognised.
\<close>

datatype glob_tok = Lit char | CharRange char char | AnyChar | AnyString

definition tok1 :: "char \<Rightarrow> glob_tok" where
  "tok1 c = (if c = CHR ''*'' then AnyString else if c = CHR ''?'' then AnyChar else Lit c)"

fun tokens :: "string \<Rightarrow> glob_tok list" where
  "tokens (c # lo # d # hi # r # rest) =
     (if c = CHR ''['' \<and> d = CHR ''-'' \<and> r = CHR '']'' then CharRange lo hi # tokens rest
      else tok1 c # tokens (lo # d # hi # r # rest))"
| "tokens (c # cs) = tok1 c # tokens cs"
| "tokens [] = []"

fun fnmatch_toks :: "glob_tok list \<Rightarrow> string \<Rightarrow> bool" where
  "fnmatch_toks [] n = (n = [])"
| "fnmatch_toks (Lit c # ts) n =
     (case n of [] \<Rightarrow> False | a # r \<Rightarrow> a = c \<and> fnmatch_toks ts r)"
| "fnmatch_toks (CharRange lo hi # ts) n =
     (case n of [] \<Rightarrow> False | a # r \<Rightarrow> in_range lo hi a \<and> fnmatch_toks ts r)"
| "fnmatch_toks (AnyChar # ts) n =
     (case n of [] \<Rightarrow> False | a # r \<Rightarrow> fnmatch_toks ts r)"
| "fnmatch_toks (AnyString # ts) n =
     list_ex (\<lambda>k. fnmatch_toks ts (drop k n)) [0..<Suc (length n)]"

definition fnmatch :: "string \<Rightarrow> string \<Rightarrow> bool" where
  "fnmatch name pat = fnmatch_toks (tokens pat) name"

definition has_magic :: "string \<Rightarrow> bool" where
  "has_magic s = list_ex (\<lambda>c. c = CHR ''*'' \<or> c = CHR ''?'' \<or> c = CHR ''['') s"

definition SEP :: char where "SEP = CHR ''/''"

definition path_split :: "string \<Rightarrow> string \<times> string" where
  \<comment> \<open>\<^verbatim>\<open>os.path.split\<close>: the head loses its trailing slashes unless it is slashes only\<close>
  "path_split p =
     (let tail = rev (takeWhile (\<lambda>c. c \<noteq> SEP) (rev p));
          head = rev (dropWhile (\<lambda>c. c \<noteq> SEP) (rev p))
      in (if head \<noteq> [] \<and> list_ex (\<lambda>c. c \<noteq> SEP) head
          then rev (dropWhile (\<lambda>c. c = SEP) (rev head))
          else head,
          tail))"

definition path_join :: "string \<Rightarrow> string \<Rightarrow> string" where
  \<comment> \<open>\<^verbatim>\<open>os.path.join(a, b)\<close>\<close>
  "path_join a b =
     (case b of
        [] \<Rightarrow> (if a = [] \<or> last a = SEP then a else a @ [SEP])
      | c # _ \<Rightarrow>
          if c = SEP then b
          else if a = [] \<or> last a = SEP then a @ b
          else a @ [SEP] @ b)"

definition ishidden :: "string \<Rightarrow> bool" where
  "ishidden name = (case name of [] \<Rightarrow> False | c # _ \<Rightarrow> c = CHR ''.'')"

definition glob1 :: "filesystem \<Rightarrow> string \<Rightarrow> string \<Rightarrow> string list" where
  \<comment> \<open>the names in \<open>dirname\<close> that match \<open>pattern\<close>; hidden names are left out, as the
      pattern of the program does not start with a dot\<close>
  "glob1 fs dirname pattern =
     filter (\<lambda>name. fnmatch name pattern)
       (filter (\<lambda>name. \<not> ishidden name) (listdir fs dirname))"

definition glob :: "filesystem \<Rightarrow> string \<Rightarrow> string list" where
  \<comment> \<open>\<^verbatim>\<open>glob.glob(pathname)\<close> for a pathname with a directory part and wildcards in
      its last component, which is how the program calls it\<close>
  "glob fs pathname =
     (let (dirname, basename) = path_split pathname;
          dirs = (if dirname \<noteq> pathname \<and> has_magic dirname then expand_dirs fs dirname
                  else [dirname])
      in concat (map (\<lambda>d. map (path_join d) (glob1 fs d basename)) dirs))"

subsection \<open>The main window\<close>

datatype pyobj = DateTime datetime | Str string | PyInt int

record LogRecord =
  Time :: pyobj
  KF :: int
  RGF :: int
  SP_FRT :: int
  FRT :: int
  ES :: int
  PA :: int
  LL :: int
  SZ :: int
  SP_uP :: int
  uP :: int
  SM :: pyobj

text \<open>
  The state of \<^verbatim>\<open>MainWindow\<close> that the operations read and write: the dictionary
  \<^verbatim>\<open>logfiles\<close> from dates to file paths, the rows of the overview table
  \<^verbatim>\<open>loglist\<close>, the rows of the detail table \<^verbatim>\<open>logdetaillist\<close>, the message boxes
  shown so far, and the index of the current tab.
\<close>

record window =
  logfiles :: "string \<rightharpoonup> string"
  loglist :: "string list"
  logdetaillist :: "LogRecord list"
  messages :: "string list"
  currentIndex :: nat

text \<open>
  A method returns normally with the new state, or an exception leaves it with the state
  as it is at that moment.
\<close>

datatype outcome = Returned window | Raised error window

definition window_of :: "outcome \<Rightarrow> window" where
  "window_of out = (case out of Returned w \<Rightarrow> w | Raised e w \<Rightarrow> w)"

subsection \<open>\<^verbatim>\<open>load_log_list\<close>\<close>

text \<open>
  \<open>wasCanceled i\<close> is what \<^verbatim>\<open>progress.wasCanceled()\<close> answers after
  \<^verbatim>\<open>progress.setValue(i)\<close>: the user's input to the scan.
\<close>

fun load_loop ::
  "filesystem \<Rightarrow> (nat \<Rightarrow> bool) \<Rightarrow> (string \<rightharpoonup> string) \<Rightarrow> nat \<Rightarrow> string list \<Rightarrow> window
     \<Rightarrow> string list \<Rightarrow> outcome" where
  "load_loop fs wasCanceled logfilescopy i [] w logdata = Returned (w\<lparr>loglist := logdata\<rparr>)"
| "load_loop fs wasCanceled logfilescopy i (file # files) w logdata =
     (case getlogdate fs file of
        Inl e \<Rightarrow> Raised e w
      | Inr date \<Rightarrow>
          (let w' = w\<lparr>logfiles := (logfiles w)(date \<mapsto> file)\<rparr>
           in if wasCanceled i then Returned (w'\<lparr>logfiles := logfilescopy\<rparr>)
              else load_loop fs wasCanceled logfilescopy (i + 1) files w' (logdata @ [date])))"

definition load_log_list :: "filesystem \<Rightarrow> (nat \<Rightarrow> bool) \<Rightarrow> string list \<Rightarrow> window \<Rightarrow> outcome" where
  "load_log_list fs wasCanceled files w = load_loop fs wasCanceled (logfiles w) 1 files w []"

subsection \<open>\<^verbatim>\<open>open_action\<close>\<close>

definition logfile_pattern :: string where
  \<comment> \<open>\<^verbatim>\<open>''.join(('/CM', '[0-9]' * 6, '.csv'))\<close>\<close>
  "logfile_pattern = ''/CM'' @ concat (replicate 6 ''[0-9]'') @ ''.csv''"

definition open_action :: "filesystem \<Rightarrow> (nat \<Rightarrow> bool) \<Rightarrow> string \<Rightarrow> window \<Rightarrow> outcome" where
  \<comment> \<open>\<open>directory\<close> is what the directory chooser returns, empty when it was cancelled\<close>
  "open_action fs wasCanceled directory w =
     (if directory = [] then Returned w
      else (let filelist = glob fs (directory @ logfile_pattern)
            in if filelist \<noteq> [] then load_log_list fs wasCanceled filelist w
               else Returned w))"

subsection \<open>\<^verbatim>\<open>numpy.genfromtxt\<close>, as \<^verbatim>\<open>item_activated\<close> calls it\<close>

text \<open>
  The call is \<^verbatim>\<open>genfromtxt(path, delimiter=';', usecols=range(1, 13), names=True,
  autostrip=True, unpack=True, filling_values='Burning', dtype=(object, int * 10, object),
  converters={1: convert_time, 12: decode})\<close>; the other parameters have their defaults
  (\<^verbatim>\<open>comments='#'\<close>, \<^verbatim>\<open>loose=True\<close>, \<^verbatim>\<open>invalid_raise=True\<close>). The model follows
  the library's steps for these arguments, with \<^verbatim>\<open>int\<close> a 64-bit integer: the first
  line with values gives the column names; every later line with values gives a row, of
  which the columns 1 to 12 are kept; a row with too few columns makes the call fail;
  the columns are converted one after the other, a converter that raises
  \<open>ValueError\<close> giving the filling value \<^verbatim>\<open>'Burning'\<close>; the rows are then stored
  in an array whose ten middle fields are integers. The array is represented by the list
  of its rows; its shape is not modelled.
\<close>

definition int_space :: "char \<Rightarrow> bool" where
  \<comment> \<open>the blanks that \<^verbatim>\<open>int()\<close> skips around a number\<close>
  "int_space c = (let n = code c in (9 \<le> n \<and> n \<le> 13) \<or> n = 32 \<or> n = 133 \<or> n = 160)"

fun parse_digits :: "nat \<Rightarrow> string \<Rightarrow> nat option" where
  \<comment> \<open>digits, with single underscores between them, after a first digit\<close>
  "parse_digits acc [] = Some acc"
| "parse_digits acc (c # cs) =
     (if is_digit c then parse_digits (10 * acc + digit_val c) cs
      else if c = CHR ''_'' then
        (case cs of
           [] \<Rightarrow> None
         | d # ds \<Rightarrow> if is_digit d then parse_digits (10 * acc + digit_val d) ds else None)
      else None)"

definition parse_unsigned :: "string \<Rightarrow> nat option" where
  "parse_unsigned s =
     (case s of
        [] \<Rightarrow> None
      | d # ds \<Rightarrow> if is_digit d then parse_digits (digit_val d) ds else None)"

definition py_int :: "string \<Rightarrow> int option" where
  \<comment> \<open>\<^verbatim>\<open>int(s)\<close>; \<open>None\<close> where it raises \<open>ValueError\<close>\<close>
  "py_int s =
     (case rev (dropWhile int_space (rev (dropWhile int_space s))) of
        [] \<Rightarrow> None
      | c # cs \<Rightarrow>
          if c = CHR ''-'' then map_option (\<lambda>n. - int n) (parse_unsigned cs)
          else if c = CHR ''+'' then map_option int (parse_unsigned cs)
          else map_option int (parse_unsigned (c # cs)))"

definition np_int64 :: "string \<Rightarrow> error + int" where
  \<comment> \<open>\<^verbatim>\<open>numpy.int64(s)\<close>\<close>
  "np_int64 s =
     (case py_int s of
        None \<Rightarrow> Inl ValueError
      | Some n \<Rightarrow>
          if - 9223372036854775808 \<le> n \<and> n < 9223372036854775808 then Inr n
          else Inl OverflowError)"

definition split_line :: "string \<Rightarrow> string list" where
  \<comment> \<open>the line splitter: the comment cut off, the line stripped of blanks and line ends,
      split at the delimiter, every value stripped\<close>
  "split_line line =
     (let l = strip_chars [CHR '' '', CR, LF] (takeWhile (\<lambda>c. c \<noteq> CHR ''#'') line)
      in if l = [] then [] else map strip (split_on delimiter l))"

fun first_values :: "string list \<Rightarrow> (string list \<times> string list) option" where
  \<comment> \<open>the values of the first line that has any, and the lines after it\<close>
  "first_values [] = None"
| "first_values (line # lines) =
     (let first_line =
            (if CHR ''#'' \<in> set line then concat (tl (split_on CHR ''#'' line)) else line);
          vals = split_line first_line
      in if vals \<noteq> [] then Some (vals, lines) else first_values lines)"

definition header_names :: "string list \<Rightarrow> string list" where
  \<comment> \<open>a first value that is empty or the comment sign is no name\<close>
  "header_names vals =
     (case vals of
        [] \<Rightarrow> []
      | v # vs \<Rightarrow> if strip v = [] \<or> strip v = ''#'' then vs else v # vs)"

definition usecols :: "nat list" where
  "usecols = [1..<13]"

fun read_rows :: "string list \<Rightarrow> string list list \<times> bool" where
  \<comment> \<open>the rows of the data lines, and whether some line had too few columns\<close>
  "read_rows [] = ([], False)"
| "read_rows (line # lines) =
     (let vals = split_line line; (rows, invalid) = read_rows lines
      in if vals = [] then (rows, invalid)
         else if length vals < 13 then (rows, True)
         else (map (\<lambda>i. vals ! i) usecols # rows, invalid))"

definition filling_value :: pyobj where
  "filling_value = Str ''Burning''"

definition loose_call :: "(string \<Rightarrow> error + pyobj) \<Rightarrow> string \<Rightarrow> error + pyobj" where
  \<comment> \<open>\<^verbatim>\<open>try: return func(value)  except ValueError: return default\<close>\<close>
  "loose_call func v =
     (case func v of
        Inr x \<Rightarrow> Inr x
      | Inl e \<Rightarrow> if is_ValueError e then Inr filling_value else Inl e)"

fun sequence :: "(error + 'a) list \<Rightarrow> error + 'a list" where
  \<comment> \<open>the results in order, up to the first exception\<close>
  "sequence [] = Inr []"
| "sequence (x # xs) =
     (case x of
        Inl e \<Rightarrow> Inl e
      | Inr v \<Rightarrow> (case sequence xs of Inl e \<Rightarrow> Inl e | Inr vs \<Rightarrow> Inr (v # vs)))"

definition converter :: "string \<Rightarrow> nat \<Rightarrow> string \<Rightarrow> error + pyobj" where
  \<comment> \<open>the converter of column \<open>i\<close> of the twelve: the two of the program, and the
      library's own for an integer column\<close>
  "converter date i v =
     (if i = 0 then map_sum id DateTime (convert_time v date)
      else if i = 11 then map_sum id Str (decode v)
      else map_sum id PyInt (np_int64 v))"

definition convert_column :: "string \<Rightarrow> string list list \<Rightarrow> nat \<Rightarrow> error + pyobj list" where
  "convert_column date rows i =
     sequence (map (\<lambda>row. loose_call (converter date i) (row ! i)) rows)"

definition int_field :: "pyobj \<Rightarrow> error + int" where
  \<comment> \<open>storing a value in an integer field of the array\<close>
  "int_field x =
     (case x of
        PyInt n \<Rightarrow> Inr n
      | Str s \<Rightarrow> np_int64 s
      | DateTime t \<Rightarrow> Inl TypeError)"

definition build_record :: "pyobj list \<Rightarrow> error + LogRecord" where
  "build_record xs =
     (case sequence (map int_field (take 10 (drop 1 xs))) of
        Inl e \<Rightarrow> Inl e
      | Inr ns \<Rightarrow>
          Inr \<lparr>Time = xs ! 0, KF = ns ! 0, RGF = ns ! 1, SP_FRT = ns ! 2, FRT = ns ! 3,
               ES = ns ! 4, PA = ns ! 5, LL = ns ! 6, SZ = ns ! 7, SP_uP = ns ! 8,
               uP = ns ! 9, SM = xs ! 11\<rparr>)"

definition genfromtxt :: "string list \<Rightarrow> string \<Rightarrow> error + LogRecord list" where
  \<comment> \<open>on the lines of the file, for the date the time converter is given\<close>
  "genfromtxt lines date =
     (case first_values lines of
        None \<Rightarrow> Inl IndexError
      | Some (vals, rest) \<Rightarrow>
          (let names = header_names vals; (rows, invalid) = read_rows rest
           in if invalid then Inl ValueError
              else (case sequence (map (convert_column date rows) [0..<12]) of
                      Inl e \<Rightarrow> Inl e
                    | Inr cols \<Rightarrow>
                        if names \<noteq> [] \<and> length names < 12 then Inl ValueError
                        else sequence
                               (map (\<lambda>k. build_record (map (\<lambda>col. col ! k) cols))
                                  [0..<length rows]))))"

subsection \<open>\<^verbatim>\<open>item_activated\<close>\<close>

datatype param = QTableWidgetItem string | QDate string | OtherParam

definition param_date :: "param \<Rightarrow> string option" where
  \<comment> \<open>the text of the table item, or the calendar date as \<^verbatim>\<open>yyyy-MM-dd\<close>\<close>
  "param_date p =
     (case p of
        QTableWidgetItem text \<Rightarrow> Some text
      | QDate text \<Rightarrow> Some text
      | OtherParam \<Rightarrow> None)"

definition no_log_message :: "string \<Rightarrow> string" where
  "no_log_message date = ''No log for day '' @ [CHR 0x27] @ date @ [CHR 0x27] @ '' found.''"

definition item_activated :: "filesystem \<Rightarrow> param \<Rightarrow> window \<Rightarrow> outcome" where
  "item_activated fs p w =
     (case param_date p of
        None \<Rightarrow> Returned w
      | Some date \<Rightarrow>
          (case logfiles w date of
             None \<Rightarrow> Returned (w\<lparr>messages := messages w @ [no_log_message date]\<rparr>)
           | Some path \<Rightarrow>
               (case read_text fs path of
                  None \<Rightarrow> Raised OSError w
                | Some text \<Rightarrow>
                    (case genfromtxt (file_lines text) date of
                       Inl e \<Rightarrow> Raised e w
                     | Inr logdata \<Rightarrow>
                         if logdata = [] then Raised IndexError (w\<lparr>logdetaillist := []\<rparr>)
                         else Returned (w\<lparr>logdetaillist := logdata, currentIndex := 1\<rparr>)))))"

subsection \<open>The index a scan builds\<close>

text \<open>
  The dictionary after the files of a scan have been entered one after the other, up to
  the first file whose date cannot be read. It describes what the loop of
  \<^verbatim>\<open>load_log_list\<close> has done to \<^verbatim>\<open>logfiles\<close> when no cancellation stops it.
\<close>

fun scan_index :: "filesystem \<Rightarrow> string list \<Rightarrow> (string \<rightharpoonup> string) \<Rightarrow> (string \<rightharpoonup> string)" where
  "scan_index fs [] m = m"
| "scan_index fs (file # files) m =
     (case getlogdate fs file of
        Inl e \<Rightarrow> m
      | Inr date \<Rightarrow> scan_index fs files (m(date \<mapsto> file)))"

subsection \<open>Example files\<close>

definition example_header :: string where
  "example_header = ''Datum;Zeit;KF;RGF;SP_FRT;FRT;ES;PA;LL;SZ;SP_uP;uP;SM''"

definition logfile_text :: "string list \<Rightarrow> string" where
  \<comment> \<open>a log file: the header line and the given data rows, each line ended by CR LF\<close>
  "logfile_text rows = concat (map (\<lambda>l. l @ [CR, LF]) (example_header # rows))"

definition logs_fs :: "(string \<times> string) list \<Rightarrow> filesystem" where
  \<comment> \<open>a file system with the one directory \<^verbatim>\<open>/logs\<close>, holding the named files\<close>
  "logs_fs files =
     \<lparr>listdir = (\<lambda>d. if d = ''/logs'' then map fst files else []),
      expand_dirs = (\<lambda>d. []),
      read_text = (\<lambda>p. map_of (map (\<lambda>(name, text). (''/logs/'' @ name, text)) files) p)\<rparr>"

definition empty_window :: window where
  "empty_window =
     \<lparr>logfiles = Map.empty, loglist = [], logdetaillist = [], messages = [], currentIndex = 0\<rparr>"

definition never :: "nat \<Rightarrow> bool" where
  \<comment> \<open>a scan that the user does not cancel\<close>
  "never i = False"


definition dated_example_row :: string where
  \<comment> \<open>the same row with the year written out\<close>
  "dated_example_row = ''01.01.2024;09:05:03;1;2;3;4;5;6;7;8;9;10;Burning''"

definition example_path :: string where
  "example_path = ''/logs/CM130513.csv''"

definition example_fs :: "string \<Rightarrow> filesystem" where
  \<comment> \<open>the directory \<^verbatim>\<open>/logs\<close> with the one file \<^verbatim>\<open>CM130513.csv\<close>: header and one row\<close>
  "example_fs row = logs_fs [(''CM130513.csv'', logfile_text [row])]"



definition five_logs :: "(string \<times> string) list" where
  \<comment> \<open>five log files of five days\<close>
  "five_logs =
     [(''CM240101.csv'', logfile_text [''01.01.2024;0:0:1'']),
      (''CM240102.csv'', logfile_text [''02.01.2024;0:0:1'']),
      (''CM240103.csv'', logfile_text [''03.01.2024;0:0:1'']),
      (''CM240104.csv'', logfile_text [''04.01.2024;0:0:1'']),
      (''CM240105.csv'', logfile_text [''05.01.2024;0:0:1''])]"

definition five_paths :: "string list" where
  "five_paths =
     [''/logs/CM240101.csv'', ''/logs/CM240102.csv'', ''/logs/CM240103.csv'',
      ''/logs/CM240104.csv'', ''/logs/CM240105.csv'']"

definition earlier_window :: window where
  \<comment> \<open>a window that holds the index of an earlier scan\<close>
  "earlier_window =
     empty_window\<lparr>logfiles := [''2023-12-31'' \<mapsto> ''/old/CM231231.csv''],
                  loglist := [''2023-12-31'']\<rparr>"

definition broken_logs :: "(string \<times> string) list" where
  \<comment> \<open>three log files, the second with a header line and nothing else\<close>
  "broken_logs =
     [(''CM240101.csv'', logfile_text [''01.01.2024;0:0:1'']),
      (''CM240102.csv'', logfile_text []),
      (''CM240103.csv'', logfile_text [''03.01.2024;0:0:1''])]"

definition broken_paths :: "string list" where
  "broken_paths = [''/logs/CM240101.csv'', ''/logs/CM240102.csv'', ''/logs/CM240103.csv'']"

subsection \<open>The file names of the specification\<close>

definition spec_logfile_name :: "string \<Rightarrow> bool" where
  \<comment> \<open>the specification's words: \<^verbatim>\<open>CM\<close>, exactly six digits, \<^verbatim>\<open>.csv\<close>\<close>
  "spec_logfile_name name =
     (length name = 12 \<and> take 2 name = ''CM'' \<and> list_all is_digit (take 6 (drop 2 name))
      \<and> drop 8 name = ''.csv'')"

definition unmatched_logs :: "(string \<times> string) list" where
  \<comment> \<open>files with the contents of a log file, under names that are not those of log files\<close>
  "unmatched_logs =
     [(''cm130513.csv'', logfile_text [dated_example_row]),
      (''CM130513.CSV'', logfile_text [dated_example_row]),
      (''CM1305133.csv'', logfile_text [dated_example_row]),
      (''CM13051.csv'', logfile_text [dated_example_row]),
      (''CM13O513.csv'', logfile_text [dated_example_row]),
      (''notes.txt'', logfile_text [dated_example_row])]"



definition text_in_number_row :: string where
  \<comment> \<open>the fifth numeric column holds letters\<close>
  "text_in_number_row = ''01.01.2024;09:05:03;1;2;3;4;abc;6;7;8;9;10;Burning''"

definition bad_integer_row :: string where
  \<comment> \<open>the fifth numeric column is no integer\<close>
  "bad_integer_row = ''01.01.2024;09:05:03;1;2;3;4;5.5;6;7;8;9;10;Burning''"

definition example_window :: window where
  \<comment> \<open>the window after the scan of the example directory\<close>
  "example_window =
     empty_window\<lparr>logfiles := [''2024-01-01'' \<mapsto> ''/logs/CM130513.csv''],
                  loglist := [''2024-01-01'']\<rparr>"




subsection \<open>Records of one line\<close>




section \<open>Properties\<close>

subsection \<open>Evaluation rules\<close>

lemmas char_defs =
  NUL_def LF_def CR_def QUOTE_def SEP_def delimiter_def code_def is_space_def is_digit_def
  in_range_def digit_val_def int_space_def

lemmas strptime_defs =
  strptime_YmdHMS_def match_YmdHMS_def strptime_dmY_def match_dmY_def re_Y_def re_m_def
  re_d_def re_H_def re_M_def re_S_def one_def two_def lit_def group_int_def
  make_datetime_def days_in_month_def is_leap_def

lemma utf8_decode_ascii:
  "list_all (\<lambda>c. code c < 128) s \<Longrightarrow> utf8_decode s = Some (map code s)"
  by (induction s) auto

lemma decode_ascii: "list_all (\<lambda>c. code c < 128) s \<Longrightarrow> decode s = Inr s"
  by (simp add: decode_def utf8_decode_ascii list_all_iff code_def map_idI)

subsection \<open>Time conversion\<close>


subsection \<open>The loop of \<^verbatim>\<open>load_log_list\<close>\<close>

lemma load_loop_cancel:
  "n < length files \<Longrightarrow> c (i + n) \<Longrightarrow>
   (\<forall>m\<le>n. \<exists>d. getlogdate fs (files ! m) = Inr d) \<Longrightarrow>
   load_loop fs c copy i files w logdata = Returned (w\<lparr>logfiles := copy\<rparr>)"
proof (induction files arbitrary: n i w logdata)
  case Nil
  then show ?case by simp
next
  case (Cons f files)
  from Cons.prems(3) obtain d where d: "getlogdate fs f = Inr d"
    by (metis le0 nth_Cons_0)
  show ?case
  proof (cases "c i")
    case True
    then show ?thesis using d by simp
  next
    case False
    then obtain n' where n: "n = Suc n'"
      using Cons.prems(2) by (cases n) auto
    have "load_loop fs c copy (i + 1) files (w\<lparr>logfiles := (logfiles w)(d \<mapsto> f)\<rparr>) (logdata @ [d])
          = Returned ((w\<lparr>logfiles := (logfiles w)(d \<mapsto> f)\<rparr>)\<lparr>logfiles := copy\<rparr>)"
    proof (rule Cons.IH[of n'])
      show "n' < length files" using Cons.prems(1) n by simp
      show "c (i + 1 + n')" using Cons.prems(2) n by simp
      show "\<forall>m\<le>n'. \<exists>d. getlogdate fs (files ! m) = Inr d"
      proof (intro allI impI)
        fix m assume "m \<le> n'"
        then show "\<exists>d. getlogdate fs (files ! m) = Inr d"
          using Cons.prems(3)[rule_format, of "Suc m"] n by simp
      qed
    qed
    then show ?thesis using d False by simp
  qed
qed

lemma dates_read:
  assumes "map g (take k files) = map Inr ds" and "m < k" and "k \<le> length files"
  shows "g (files ! m) = Inr (ds ! m)"
proof -
  have len: "length ds = k"
    using assms(1,3) by (metis length_map length_take min.absorb2)
  have "g (files ! m) = map g (take k files) ! m"
    using assms(2,3) by simp
  also have "\<dots> = map Inr ds ! m"
    by (simp only: assms(1))
  also have "\<dots> = Inr (ds ! m)"
    using assms(2) len by simp
  finally show ?thesis .
qed

lemma load_loop_raise:
  "k < length files \<Longrightarrow> map (getlogdate fs) (take k files) = map Inr ds \<Longrightarrow>
   getlogdate fs (files ! k) = Inl e \<Longrightarrow> (\<forall>m<k. \<not> c (i + m)) \<Longrightarrow> logfiles w = m \<Longrightarrow>
   load_loop fs c copy i files w logdata
     = Raised e (w\<lparr>logfiles := scan_index fs (take k files) m\<rparr>)"
proof (induction files arbitrary: k ds i w m logdata)
  case Nil
  then show ?case by simp
next
  case (Cons f files)
  show ?case
  proof (cases k)
    case 0
    then show ?thesis using Cons.prems by simp
  next
    case (Suc k')
    then obtain d ds' where ds: "ds = d # ds'" and d: "getlogdate fs f = Inr d"
      and rest: "map (getlogdate fs) (take k' files) = map Inr ds'"
      using Cons.prems(2) by (cases ds) auto
    have nc: "\<not> c i" using Cons.prems(4)[rule_format, of 0] Suc by simp
    define w' where "w' = w\<lparr>logfiles := (logfiles w)(d \<mapsto> f)\<rparr>"
    have w': "logfiles w' = m(d \<mapsto> f)"
      using Cons.prems(5) by (simp add: w'_def)
    have step: "load_loop fs c copy i (f # files) w logdata
        = load_loop fs c copy (i + 1) files w' (logdata @ [d])"
      using d nc by (simp add: w'_def)
    have sc: "scan_index fs (take k (f # files)) m = scan_index fs (take k' files) (m(d \<mapsto> f))"
      using d Suc by simp
    have "load_loop fs c copy (i + 1) files w' (logdata @ [d])
          = Raised e (w'\<lparr>logfiles := scan_index fs (take k' files) (m(d \<mapsto> f))\<rparr>)"
    proof (rule Cons.IH[OF _ rest _ _ w'])
      show "k' < length files" using Cons.prems(1) Suc by simp
      show "getlogdate fs (files ! k') = Inl e" using Cons.prems(3) Suc by simp
      show "\<forall>m<k'. \<not> c (i + 1 + m)"
      proof (intro allI impI)
        fix m assume "m < k'"
        then show "\<not> c (i + 1 + m)"
          using Cons.prems(4)[rule_format, of "Suc m"] Suc by simp
      qed
    qed
    moreover have "w'\<lparr>logfiles := scan_index fs (take k' files) (m(d \<mapsto> f))\<rparr>
        = w\<lparr>logfiles := scan_index fs (take k' files) (m(d \<mapsto> f))\<rparr>"
      by (simp add: w'_def)
    ultimately show ?thesis
      unfolding step sc by simp
  qed
qed

lemma scan_index_entries:
  "map (getlogdate fs) files = map Inr ds \<Longrightarrow>
   scan_index fs files m = m ++ map_of (rev (zip ds files))"
proof (induction files arbitrary: ds m)
  case Nil
  then show ?case by simp
next
  case (Cons f files)
  then obtain d ds' where ds: "ds = d # ds'" and d: "getlogdate fs f = Inr d"
    and rest: "map (getlogdate fs) files = map Inr ds'"
    by (cases ds) auto
  have "scan_index fs (f # files) m = scan_index fs files (m(d \<mapsto> f))"
    using d by simp
  also have "\<dots> = m(d \<mapsto> f) ++ map_of (rev (zip ds' files))"
    by (rule Cons.IH[OF rest])
  also have "\<dots> = m ++ map_of (rev (zip ds (f # files)))"
    by (rule ext) (simp add: ds map_add_def split: option.splits)
  finally show ?case .
qed



lemma load_loop_index:
  "logfiles w = m \<Longrightarrow>
   logfiles (window_of (load_loop fs c copy i files w logdata)) = copy
   \<or> logfiles (window_of (load_loop fs c copy i files w logdata)) = scan_index fs files m"
proof (induction files arbitrary: i w m logdata)
  case Nil
  then show ?case by (simp add: window_of_def)
next
  case (Cons f files)
  show ?case
  proof (cases "getlogdate fs f")
    case (Inl e)
    then show ?thesis using Cons.prems by (simp add: window_of_def)
  next
    case (Inr d)
    show ?thesis
    proof (cases "c i")
      case True
      then show ?thesis using Inr by (simp add: window_of_def)
    next
      case False
      have w': "logfiles (w\<lparr>logfiles := (logfiles w)(d \<mapsto> f)\<rparr>) = m(d \<mapsto> f)"
        using Cons.prems by simp
      have step: "load_loop fs c copy i (f # files) w logdata
          = load_loop fs c copy (i + 1) files (w\<lparr>logfiles := (logfiles w)(d \<mapsto> f)\<rparr>) (logdata @ [d])"
        using Inr False by simp
      have sc: "scan_index fs (f # files) m = scan_index fs files (m(d \<mapsto> f))"
        using Inr by simp
      show ?thesis
        unfolding step sc by (rule Cons.IH[OF w'])
    qed
  qed
qed


subsection \<open>Cancelling a scan\<close>

text \<open>
  C3. When the user cancels a scan at the \<open>k\<close>-th file (the dates of the first \<open>k\<close>
  files having been read, so that the loop reaches that point), \<^verbatim>\<open>load_log_list\<close>
  returns with the window exactly as it was before the scan: the index is the one from
  before, and no entry of the partly built one is left. This holds for every list of
  files, every earlier index and every \<open>k\<close>, and so for a scan that \<^verbatim>\<open>open_action\<close>
  starts.
\<close>

theorem cancelled_scan_restores_index:
  assumes "0 < k" and "k \<le> length files" and "wasCanceled k"
    and "map (getlogdate fs) (take k files) = map Inr dates"
  shows "load_log_list fs wasCanceled files w = Returned w
         \<and> (directory \<noteq> [] \<and> glob fs (directory @ logfile_pattern) = files
              \<longrightarrow> open_action fs wasCanceled directory w = Returned w)"
proof -
  obtain n where n: "k = Suc n"
    using assms(1) by (cases k) auto
  have ok: "\<forall>m\<le>n. \<exists>d. getlogdate fs (files ! m) = Inr d"
  proof (intro allI impI)
    fix m assume "m \<le> n"
    then have "m < k" using n by simp
    then show "\<exists>d. getlogdate fs (files ! m) = Inr d"
      using dates_read[OF assms(4) _ assms(2)] by blast
  qed
  have "load_loop fs wasCanceled (logfiles w) 1 files w [] = Returned (w\<lparr>logfiles := logfiles w\<rparr>)"
  proof (rule load_loop_cancel[of n])
    show "n < length files" using assms(2) n by simp
    show "wasCanceled (1 + n)" using assms(3) n by simp
    show "\<forall>m\<le>n. \<exists>d. getlogdate fs (files ! m) = Inr d" by (rule ok)
  qed
  then have main: "load_log_list fs wasCanceled files w = Returned w"
    by (simp add: load_log_list_def)
  have "files \<noteq> []" using assms(1,2) by auto
  then show ?thesis
    using main by (auto simp: open_action_def)
qed

subsection \<open>A scan that fails\<close>

text \<open>
  C9. When the date of the file at position \<open>k\<close> (counted from 0) cannot be read, the
  dates of the \<open>k\<close> files before it having been read and the scan not cancelled so far,
  the exception leaves \<^verbatim>\<open>load_log_list\<close> with the entries of those \<open>k\<close> files in the
  index: the earlier index is not restored. A file with only a header line, or with only
  blank lines, is such a file: reading its date raises \<open>StopIteration\<close>.
\<close>

theorem failed_scan_keeps_partial_index:
  assumes "k < length files"
    and "map (getlogdate fs) (take k files) = map Inr dates"
    and "getlogdate fs (files ! k) = Inl e"
    and "\<forall>j. 0 < j \<and> j \<le> k \<longrightarrow> \<not> wasCanceled j"
  shows "load_log_list fs wasCanceled files w
           = Raised e (w\<lparr>logfiles := logfiles w ++ map_of (rev (zip dates (take k files)))\<rparr>)"
proof -
  have nc: "\<forall>m<k. \<not> wasCanceled (1 + m)"
    using assms(4) by simp
  have "load_loop fs wasCanceled (logfiles w) 1 files w []
          = Raised e (w\<lparr>logfiles := scan_index fs (take k files) (logfiles w)\<rparr>)"
    by (rule load_loop_raise[OF assms(1) assms(2) assms(3) nc refl])
  then show ?thesis
    by (simp add: load_log_list_def scan_index_entries[OF assms(2)])
qed

subsection \<open>Scanning twice\<close>


subsection \<open>The example files, evaluated\<close>

lemmas csv_defs =
  logfile_text_def example_header_def logfile_rows_def strip_lines_def strip_def
  Reader_iternext_def process_line_def parse_process_char_def start_field_def
  parse_add_char_def parse_save_field_def field_limit_def

lemmas date_defs =
  getlogdate_text_def isoformat_date_def pad2_def pad4_def digit_char_def


lemma getlogdate_dated_example:
  "getlogdate_text (logfile_text [dated_example_row]) = Inr ''2024-01-01''"
  by (simp add: dated_example_row_def date_defs csv_defs strptime_defs char_defs)

lemma getlogdate_day1:
  "getlogdate_text (logfile_text [''01.01.2024;0:0:1'']) = Inr ''2024-01-01''"
  by (simp add: date_defs csv_defs strptime_defs char_defs)

lemma getlogdate_day2:
  "getlogdate_text (logfile_text [''02.01.2024;0:0:1'']) = Inr ''2024-01-02''"
  by (simp add: date_defs csv_defs strptime_defs char_defs)

lemma getlogdate_header_only:
  "getlogdate_text (logfile_text []) = Inl StopIteration"
  by (simp add: date_defs csv_defs strptime_defs char_defs)

lemma getlogdate_blank_lines:
  "getlogdate_text ([CHR '' '', CR, LF, NUL, LF, LF]) = Inl StopIteration"
  by (simp add: date_defs csv_defs strptime_defs char_defs)

lemma logfile_pattern_text: "logfile_pattern = ''/CM[0-9][0-9][0-9][0-9][0-9][0-9].csv''"
  by (simp add: logfile_pattern_def numeral_eq_Suc)

lemmas glob_defs =
  glob_def glob1_def path_split_def path_join_def has_magic_def ishidden_def fnmatch_def
  logfile_pattern_text tok1_def logs_fs_def Let_def

lemma glob_example:
  "glob (example_fs row) (''/logs'' @ logfile_pattern) = [example_path]"
  by (simp add: example_fs_def example_path_def glob_defs char_defs)

lemma open_action_example:
  "getlogdate_text (logfile_text [row]) = r \<Longrightarrow>
   open_action (example_fs row) never ''/logs'' w
     = (case r of
          Inl e \<Rightarrow> Raised e w
        | Inr date \<Rightarrow>
            Returned (w\<lparr>logfiles := (logfiles w)(date \<mapsto> example_path), loglist := [date]\<rparr>))"
proof -
  assume r: "getlogdate_text (logfile_text [row]) = r"
  have g: "getlogdate (example_fs row) example_path = r"
    using r by (simp add: getlogdate_def example_fs_def example_path_def logs_fs_def)
  have "open_action (example_fs row) never ''/logs'' w
      = load_log_list (example_fs row) never [example_path] w"
    unfolding open_action_def glob_example by simp
  then show ?thesis
    by (cases r) (simp_all add: load_log_list_def g never_def)
qed

lemmas genfromtxt_defs =
  genfromtxt_def header_names_def split_line_def strip_def strip_chars_def usecols_def
  convert_column_def loose_call_def converter_def convert_time_def decode_ascii
  build_record_def int_field_def np_int64_def py_int_def parse_unsigned_def
  filling_value_def is_ValueError_def Let_def upt_conv_Cons logfile_text_def
  example_header_def


subsection \<open>The scan properties at concrete scans\<close>

text \<open>
  Five files of which the scan is cancelled at the second; three files of which the
  second has no data row; and the example directory, scanned twice.
\<close>

theorem cancelled_scan_restores_index_witness:
  "load_log_list (logs_fs five_logs) (\<lambda>i. i = 2) five_paths earlier_window
     = Returned earlier_window
   \<and> length five_paths = 5
   \<and> logfiles earlier_window ''2024-01-01'' = None
   \<and> logfiles earlier_window ''2024-01-02'' = None"
proof -
  have d1: "getlogdate (logs_fs five_logs) ''/logs/CM240101.csv'' = Inr ''2024-01-01''"
    by (simp add: getlogdate_def logs_fs_def five_logs_def getlogdate_day1)
  have d2: "getlogdate (logs_fs five_logs) ''/logs/CM240102.csv'' = Inr ''2024-01-02''"
    by (simp add: getlogdate_def logs_fs_def five_logs_def getlogdate_day2)
  have dates: "map (getlogdate (logs_fs five_logs)) (take 2 five_paths)
      = map Inr [''2024-01-01'', ''2024-01-02'']"
    by (simp add: five_paths_def d1 d2)
  have "load_log_list (logs_fs five_logs) (\<lambda>i. i = 2) five_paths earlier_window
      = Returned earlier_window"
    using cancelled_scan_restores_index[where k = 2 and wasCanceled = "\<lambda>i. i = 2"
        and files = five_paths and fs = "logs_fs five_logs" and w = earlier_window
        and directory = "[]", OF _ _ _ dates]
    by (simp add: five_paths_def)
  then show ?thesis
    by (simp add: five_paths_def earlier_window_def empty_window_def)
qed

theorem failed_scan_keeps_partial_index_witness:
  "load_log_list (logs_fs broken_logs) never broken_paths empty_window
     = Raised StopIteration (empty_window\<lparr>logfiles := [''2024-01-01'' \<mapsto> ''/logs/CM240101.csv'']\<rparr>)
   \<and> logfiles empty_window ''2024-01-01'' = None
   \<and> getlogdate_text ([CHR '' '', CR, LF, NUL, LF, LF]) = Inl StopIteration"
proof -
  have d1: "getlogdate (logs_fs broken_logs) ''/logs/CM240101.csv'' = Inr ''2024-01-01''"
    by (simp add: getlogdate_def logs_fs_def broken_logs_def getlogdate_day1)
  have d2: "getlogdate (logs_fs broken_logs) (broken_paths ! 1) = Inl StopIteration"
    by (simp add: getlogdate_def logs_fs_def broken_logs_def broken_paths_def
        getlogdate_header_only)
  have dates: "map (getlogdate (logs_fs broken_logs)) (take 1 broken_paths)
      = map Inr [''2024-01-01'']"
    by (simp add: broken_paths_def d1)
  have len: "1 < length broken_paths"
    by (simp add: broken_paths_def)
  have nc: "\<forall>j. 0 < j \<and> j \<le> 1 \<longrightarrow> \<not> never j"
    by (simp add: never_def)
  from failed_scan_keeps_partial_index[OF len dates d2 nc, of empty_window]
  show ?thesis
    by (simp add: broken_paths_def empty_window_def getlogdate_blank_lines)
qed


subsection \<open>The end-to-end example\<close>



subsection \<open>The files of a scan\<close>

lemma tokens_logfile_name:
  "tokens ''CM[0-9][0-9][0-9][0-9][0-9][0-9].csv''
     = [Lit CHR ''C'', Lit CHR ''M'',
        CharRange CHR ''0'' CHR ''9'', CharRange CHR ''0'' CHR ''9'',
        CharRange CHR ''0'' CHR ''9'', CharRange CHR ''0'' CHR ''9'',
        CharRange CHR ''0'' CHR ''9'', CharRange CHR ''0'' CHR ''9'',
        Lit CHR ''.'', Lit CHR ''c'', Lit CHR ''s'', Lit CHR ''v'']"
  by (simp add: tok1_def)

lemma in_range_digits: "in_range CHR ''0'' CHR ''9'' c = is_digit c"
  by (simp add: in_range_def is_digit_def code_def)

lemma fnmatch_logfile_name:
  "fnmatch name ''CM[0-9][0-9][0-9][0-9][0-9][0-9].csv'' = spec_logfile_name name"
proof -
  have "fnmatch_toks
          [Lit CHR ''C'', Lit CHR ''M'',
           CharRange CHR ''0'' CHR ''9'', CharRange CHR ''0'' CHR ''9'',
           CharRange CHR ''0'' CHR ''9'', CharRange CHR ''0'' CHR ''9'',
           CharRange CHR ''0'' CHR ''9'', CharRange CHR ''0'' CHR ''9'',
           Lit CHR ''.'', Lit CHR ''c'', Lit CHR ''s'', Lit CHR ''v''] name
        = spec_logfile_name name"
    by (auto simp: spec_logfile_name_def in_range_digits split: list.splits)
  then show ?thesis
    by (simp only: fnmatch_def tokens_logfile_name)
qed

lemma path_split_pattern:
  "path_split (directory @ logfile_pattern)
     = (if list_ex (\<lambda>c. c \<noteq> SEP) directory
        then rev (dropWhile (\<lambda>c. c = SEP) (rev directory))
        else directory @ [SEP],
        ''CM[0-9][0-9][0-9][0-9][0-9][0-9].csv'')"
proof -
  have r: "rev (directory @ logfile_pattern)
      = ''vsc.]9-0[]9-0[]9-0[]9-0[]9-0[]9-0[MC'' @ SEP # rev directory"
    by (simp add: logfile_pattern_text SEP_def)
  have t: "takeWhile (\<lambda>c. c \<noteq> SEP) (rev (directory @ logfile_pattern))
      = ''vsc.]9-0[]9-0[]9-0[]9-0[]9-0[]9-0[MC''"
    unfolding r by (simp add: SEP_def)
  have d: "dropWhile (\<lambda>c. c \<noteq> SEP) (rev (directory @ logfile_pattern)) = SEP # rev directory"
    unfolding r by (simp add: SEP_def)
  show ?thesis
    unfolding path_split_def Let_def t d by simp
qed

lemma dirname_magic:
  assumes "has_magic (fst (path_split (directory @ logfile_pattern)))"
  shows "has_magic directory"
proof -
  define magic where "magic = (\<lambda>c. c = CHR ''*'' \<or> c = CHR ''?'' \<or> c = CHR ''['')"
  have hm: "has_magic s = (\<exists>c\<in>set s. magic c)" for s
    by (simp add: has_magic_def magic_def list_ex_iff)
  from assms obtain c where c: "magic c"
    and mem: "c \<in> set (fst (path_split (directory @ logfile_pattern)))"
    unfolding hm by blast
  have "c \<in> set directory"
  proof (cases "list_ex (\<lambda>c. c \<noteq> SEP) directory")
    case True
    then have "c \<in> set (dropWhile (\<lambda>c. c = SEP) (rev directory))"
      using mem by (simp add: path_split_pattern)
    then have "c \<in> set (rev directory)"
      by (rule set_dropWhileD)
    then show ?thesis by simp
  next
    case False
    then have "c \<in> set directory \<or> c = SEP"
      using mem by (auto simp: path_split_pattern)
    moreover have "\<not> magic SEP"
      by (simp add: magic_def SEP_def)
    ultimately show ?thesis using c by auto
  qed
  then show ?thesis
    unfolding hm using c by blast
qed

lemma logfile_name_chars:
  assumes "spec_logfile_name name"
  shows "name \<noteq> [] \<and> SEP \<notin> set name"
proof -
  have "drop 6 (drop 2 name) = drop 8 name"
    by simp
  then have "take 6 (drop 2 name) @ drop 8 name = drop 2 name"
    by (metis append_take_drop_id)
  then have parts: "take 2 name @ take 6 (drop 2 name) @ drop 8 name = name"
    by simp
  have "SEP \<notin> set (take 6 (drop 2 name))"
    using assms by (auto simp: spec_logfile_name_def list_all_iff is_digit_def code_def SEP_def)
  moreover have "SEP \<notin> set (take 2 name)" and "SEP \<notin> set (drop 8 name)"
    using assms by (simp_all add: spec_logfile_name_def SEP_def)
  ultimately have "SEP \<notin> set (take 2 name @ take 6 (drop 2 name) @ drop 8 name)"
    by simp
  then have "SEP \<notin> set name"
    unfolding parts .
  moreover have "name \<noteq> []" using assms by (auto simp: spec_logfile_name_def)
  ultimately show ?thesis by simp
qed

lemma basename_join:
  assumes "name \<noteq> []" and "SEP \<notin> set name"
  shows "snd (path_split (path_join d name)) = name"
proof -
  obtain c cs where name: "name = c # cs" and c: "c \<noteq> SEP"
    using assms by (cases name) auto
  have tw: "takeWhile (\<lambda>c. c \<noteq> SEP) (rev name @ ys) = rev name @ takeWhile (\<lambda>c. c \<noteq> SEP) ys"
    for ys
    using assms(2) by (intro takeWhile_append2) auto
  show ?thesis
  proof (cases "d = [] \<or> last d = SEP")
    case True
    then have j: "path_join d name = d @ name"
      using name c by (simp add: path_join_def)
    have "takeWhile (\<lambda>c. c \<noteq> SEP) (rev d) = []"
      using True by (cases d rule: rev_cases) auto
    then show ?thesis
      by (simp add: j path_split_def Let_def tw)
  next
    case False
    then have j: "path_join d name = d @ [SEP] @ name"
      using name c by (simp add: path_join_def)
    show ?thesis
      by (simp add: j path_split_def Let_def tw)
  qed
qed

lemma glob_logfiles:
  assumes "p \<in> set (glob fs (directory @ logfile_pattern))"
  shows "\<exists>d name. p = path_join d name \<and> name \<in> set (listdir fs d) \<and> spec_logfile_name name
           \<and> (has_magic directory \<or> d = fst (path_split (directory @ logfile_pattern)))"
proof -
  define dirname where "dirname = fst (path_split (directory @ logfile_pattern))"
  define dirs where "dirs =
    (if dirname \<noteq> directory @ logfile_pattern \<and> has_magic dirname then expand_dirs fs dirname
     else [dirname])"
  have g: "glob fs (directory @ logfile_pattern)
      = concat (map (\<lambda>d. map (path_join d)
          (glob1 fs d ''CM[0-9][0-9][0-9][0-9][0-9][0-9].csv'')) dirs)"
    by (simp add: glob_def dirs_def dirname_def path_split_pattern Let_def)
  from assms obtain d name where d: "d \<in> set dirs"
    and name: "name \<in> set (glob1 fs d ''CM[0-9][0-9][0-9][0-9][0-9][0-9].csv'')"
    and p: "p = path_join d name"
    unfolding g by auto
  have "name \<in> set (listdir fs d)" and "spec_logfile_name name"
    using name by (auto simp: glob1_def fnmatch_logfile_name)
  moreover have "has_magic directory \<or> d = dirname"
    using d dirname_magic[of directory] by (auto simp: dirs_def dirname_def split: if_splits)
  ultimately show ?thesis
    using p by (auto simp: dirname_def)
qed

lemma scan_index_files:
  "scan_index fs files m date = Some path \<Longrightarrow> m date = Some path \<or> path \<in> set files"
proof (induction files arbitrary: m)
  case Nil
  then show ?case by simp
next
  case (Cons f files)
  show ?case
  proof (cases "getlogdate fs f")
    case (Inl e)
    then show ?thesis using Cons.prems by simp
  next
    case (Inr d)
    then have "scan_index fs files (m(d \<mapsto> f)) date = Some path"
      using Cons.prems by simp
    from Cons.IH[OF this] show ?thesis
      by (auto split: if_splits)
  qed
qed

subsection \<open>File names that do not match\<close>

text \<open>
  C8. Every entry of the index after \<^verbatim>\<open>open_action\<close> is an entry of the index from
  before, or the path of a file whose name is \<^verbatim>\<open>CM\<close>, exactly six digits and the
  lowercase \<^verbatim>\<open>.csv\<close>, compared character by character, and which is a name in the
  directory it was looked for in: the chosen directory itself, unless the path of that
  directory holds a wildcard character of \<^verbatim>\<open>glob\<close>. So a file with any other name is
  never entered by a scan, whatever it holds.
\<close>

theorem unmatched_names_not_indexed:
  assumes "logfiles (window_of (open_action fs wasCanceled directory w)) date = Some path"
  shows "logfiles w date = Some path
         \<or> (\<exists>d name. path = path_join d name \<and> name \<in> set (listdir fs d)
               \<and> spec_logfile_name name \<and> snd (path_split path) = name
               \<and> (has_magic directory \<or> d = fst (path_split (directory @ logfile_pattern))))"
proof (cases "directory = [] \<or> glob fs (directory @ logfile_pattern) = []")
  case True
  then have "open_action fs wasCanceled directory w = Returned w"
    by (auto simp: open_action_def)
  then show ?thesis
    using assms by (simp add: window_of_def)
next
  case False
  define files where "files = glob fs (directory @ logfile_pattern)"
  have o: "open_action fs wasCanceled directory w = load_log_list fs wasCanceled files w"
    using False by (simp add: open_action_def files_def)
  have "logfiles (window_of (load_log_list fs wasCanceled files w)) = logfiles w
        \<or> logfiles (window_of (load_log_list fs wasCanceled files w))
            = scan_index fs files (logfiles w)"
    unfolding load_log_list_def by (rule load_loop_index[OF refl])
  then have "logfiles w date = Some path \<or> path \<in> set files"
    using assms o scan_index_files[of fs files "logfiles w" date path] by auto
  then show ?thesis
  proof
    assume "logfiles w date = Some path"
    then show ?thesis by simp
  next
    assume "path \<in> set files"
    then obtain d name where dn: "path = path_join d name" "name \<in> set (listdir fs d)"
        "spec_logfile_name name"
        "has_magic directory \<or> d = fst (path_split (directory @ logfile_pattern))"
      using glob_logfiles[of path fs directory] by (auto simp: files_def)
    have "snd (path_split path) = name"
      using logfile_name_chars[OF dn(3)] dn(1) by (simp add: basename_join)
    then show ?thesis
      using dn by blast
  qed
qed

subsection \<open>A directory without log files\<close>

text \<open>
  C5, as the specification states it, fails in its second half: when no file of the
  directory matches, \<^verbatim>\<open>open_action\<close> returns without a word. For a directory whose
  six files all have other names, the window after the operation is the window from
  before: the index is unchanged, and no message has been shown.
\<close>

theorem no_match_no_message:
  "glob (logs_fs unmatched_logs) (''/logs'' @ logfile_pattern) = []
   \<and> open_action (logs_fs unmatched_logs) never ''/logs'' earlier_window = Returned earlier_window
   \<and> messages (window_of (open_action (logs_fs unmatched_logs) never ''/logs'' earlier_window))
       = []"
proof -
  have g: "glob (logs_fs unmatched_logs) (''/logs'' @ logfile_pattern) = []"
    by (simp add: unmatched_logs_def glob_defs char_defs)
  have "open_action (logs_fs unmatched_logs) never ''/logs'' earlier_window
      = Returned earlier_window"
    unfolding open_action_def g by simp
  then show ?thesis
    using g by (simp add: window_of_def earlier_window_def empty_window_def)
qed

text \<open>
  C5, amended: for every directory scan in which no file matches the pattern,
  \<^verbatim>\<open>open_action\<close> returns with the window unchanged: the index is the one from before,
  and nothing is reported to the user.
\<close>

theorem no_match_leaves_window:
  assumes "glob fs (directory @ logfile_pattern) = []"
  shows "open_action fs wasCanceled directory w = Returned w"
  using assms by (simp add: open_action_def)

theorem no_match_leaves_window_witness:
  "open_action (logs_fs [(''notes.txt'', ''hello'')]) (\<lambda>i. True) ''/logs'' earlier_window
     = Returned earlier_window
   \<and> logfiles earlier_window ''2023-12-31'' = Some ''/old/CM231231.csv''"
proof -
  have g: "glob (logs_fs [(''notes.txt'', ''hello'')]) (''/logs'' @ logfile_pattern) = []"
    by (simp add: glob_defs char_defs)
  from no_match_leaves_window[OF g, of "\<lambda>i. True" earlier_window]
  show ?thesis
    by (simp add: earlier_window_def empty_window_def)
qed

text \<open>
  The scan of the example directory, started from a window that holds an earlier index:
  the new entry is the file \<^verbatim>\<open>CM130513.csv\<close>.
\<close>

theorem unmatched_names_not_indexed_witness:
  "logfiles (window_of (open_action (example_fs dated_example_row) never ''/logs''
               earlier_window)) ''2024-01-01'' = Some example_path
   \<and> logfiles earlier_window ''2024-01-01'' = None
   \<and> spec_logfile_name ''CM130513.csv''
   \<and> snd (path_split example_path) = ''CM130513.csv''"
proof -
  have e: "logfiles (window_of (open_action (example_fs dated_example_row) never ''/logs''
               earlier_window)) ''2024-01-01'' = Some example_path"
    by (simp add: open_action_example[OF getlogdate_dated_example] window_of_def)
  have old: "logfiles earlier_window ''2024-01-01'' = None"
    by (simp add: earlier_window_def empty_window_def)
  from unmatched_names_not_indexed[OF e] old
  obtain d name where "example_path = path_join d name" and "spec_logfile_name name"
    and "snd (path_split example_path) = name"
    by auto
  moreover have "snd (path_split example_path) = ''CM130513.csv''"
    by (simp add: example_path_def path_split_def SEP_def Let_def)
  ultimately show ?thesis
    using e old by simp
qed

subsection \<open>Parsing a log file\<close>

lemma sequence_Inr:
  "sequence xs = Inr ys \<Longrightarrow> length ys = length xs \<and> (\<forall>i<length xs. xs ! i = Inr (ys ! i))"
proof (induction xs arbitrary: ys)
  case Nil
  then show ?case by simp
next
  case (Cons x xs)
  then obtain v vs where x: "x = Inr v" and vs: "sequence xs = Inr vs" and ys: "ys = v # vs"
    by (auto split: sum.splits)
  from Cons.IH[OF vs] show ?case
    by (auto simp: x ys nth_Cons split: nat.splits)
qed

lemma sequence_Inl:
  "i < length xs \<Longrightarrow> xs ! i = Inl e \<Longrightarrow> \<exists>e'. sequence xs = Inl e'"
proof (induction xs arbitrary: i)
  case Nil
  then show ?case by simp
next
  case (Cons x xs)
  show ?case
  proof (cases i)
    case 0
    then show ?thesis using Cons.prems by simp
  next
    case (Suc i')
    then obtain e' where "sequence xs = Inl e'"
      using Cons.IH[of i'] Cons.prems by auto
    then show ?thesis by (cases x) simp_all
  qed
qed

lemma genfromtxt_parts:
  assumes "genfromtxt lines date = Inr recs"
    and "first_values lines = Some (vals, rest)"
  shows "\<exists>cols. sequence (map (convert_column date (fst (read_rows rest))) [0..<12]) = Inr cols
           \<and> sequence (map (\<lambda>k. build_record (map (\<lambda>col. col ! k) cols))
                 [0..<length (fst (read_rows rest))]) = Inr recs"
  using assms
  by (auto simp: genfromtxt_def Let_def split: prod.splits if_splits sum.splits)

lemma converted_cell:
  assumes "sequence (map (convert_column date rows) [0..<12]) = Inr cols"
    and "i < 12" and "k < length rows"
  shows "length cols = 12 \<and> loose_call (converter date i) (rows ! k ! i) = Inr (cols ! i ! k)"
proof -
  have len: "length cols = 12"
    using sequence_Inr[OF assms(1)] by simp
  have "map (convert_column date rows) [0..<12] ! i = Inr (cols ! i)"
    using sequence_Inr[OF assms(1)] assms(2) by simp
  then have col: "convert_column date rows i = Inr (cols ! i)"
    using assms(2) by simp
  then have "sequence (map (\<lambda>row. loose_call (converter date i) (row ! i)) rows) = Inr (cols ! i)"
    by (simp add: convert_column_def)
  from sequence_Inr[OF this] assms(3)
  have "loose_call (converter date i) (rows ! k ! i) = Inr (cols ! i ! k)"
    by simp
  then show ?thesis using len by simp
qed



subsection \<open>The status of a record\<close>




subsection \<open>A value that is no integer\<close>

lemma burning_is_no_integer: "int_field filling_value = Inl ValueError"
  by (simp add: int_field_def filling_value_def np_int64_def py_int_def parse_unsigned_def
      char_defs)

lemma build_record_bad_cell:
  assumes "1 \<le> j" and "j \<le> 10" and "length xs = 12" and "xs ! j = filling_value"
  shows "\<exists>e. build_record xs = Inl e"
proof -
  have "j - 1 < length (map int_field (take 10 (drop 1 xs)))"
    using assms(1,2,3) by simp
  moreover have "map int_field (take 10 (drop 1 xs)) ! (j - 1) = Inl ValueError"
    using assms by (simp add: burning_is_no_integer)
  ultimately obtain e where "sequence (map int_field (take 10 (drop 1 xs))) = Inl e"
    using sequence_Inl by blast
  then show ?thesis
    by (simp add: build_record_def)
qed

lemma genfromtxt_bad_integer:
  assumes "first_values lines = Some (vals, rest)"
    and "row \<in> set (fst (read_rows rest))"
    and "1 \<le> j" and "j \<le> 10"
    and "np_int64 (row ! j) = Inl e0"
  shows "\<exists>e. genfromtxt lines date = Inl e"
proof (cases "genfromtxt lines date")
  case (Inl e)
  then show ?thesis by blast
next
  case (Inr recs)
  define rows where "rows = fst (read_rows rest)"
  from genfromtxt_parts[OF Inr assms(1)] obtain cols
    where cols: "sequence (map (convert_column date rows) [0..<12]) = Inr cols"
      and recs: "sequence (map (\<lambda>k. build_record (map (\<lambda>col. col ! k) cols))
                   [0..<length rows]) = Inr recs"
    unfolding rows_def by blast
  from assms(2) obtain k where k: "k < length rows" and row: "rows ! k = row"
    unfolding rows_def by (auto simp: in_set_conv_nth)
  have j12: "j < 12" using assms(4) by simp
  have len: "length cols = 12"
    and cell: "loose_call (converter date j) (rows ! k ! j) = Inr (cols ! j ! k)"
    using converted_cell[OF cols j12 k] by simp_all
  have conv: "converter date j (row ! j) = Inl e0"
    using assms(3,4,5) by (simp add: converter_def)
  have filled: "cols ! j ! k = filling_value"
    using cell conv by (simp add: loose_call_def row split: if_splits)
  have "\<exists>e. build_record (map (\<lambda>col. col ! k) cols) = Inl e"
  proof (rule build_record_bad_cell[OF assms(3,4)])
    show "length (map (\<lambda>col. col ! k) cols) = 12" using len by simp
    show "map (\<lambda>col. col ! k) cols ! j = filling_value" using filled len j12 by simp
  qed
  then obtain e where "build_record (map (\<lambda>col. col ! k) cols) = Inl e" by blast
  then have "map (\<lambda>k. build_record (map (\<lambda>col. col ! k) cols)) [0..<length rows] ! k = Inl e"
    using k by simp
  moreover have "k < length (map (\<lambda>k. build_record (map (\<lambda>col. col ! k) cols))
                      [0..<length rows])"
    using k by simp
  ultimately obtain e' where
    "sequence (map (\<lambda>k. build_record (map (\<lambda>col. col ! k) cols)) [0..<length rows]) = Inl e'"
    using sequence_Inl by blast
  then show ?thesis using recs by simp
qed

text \<open>
  C4, as the specification states it, fails in its second half: nothing catches the
  exception of the parse. The file below has \<^verbatim>\<open>abc\<close> in a numeric column; selecting
  its date makes \<^verbatim>\<open>genfromtxt\<close> raise \<open>ValueError\<close>, and the exception leaves
  \<^verbatim>\<open>item_activated\<close>: no message has been shown and the detail table is as before.
\<close>

theorem bad_integer_not_reported:
  "genfromtxt (file_lines (logfile_text [text_in_number_row])) ''2024-01-01'' = Inl ValueError
   \<and> item_activated (example_fs text_in_number_row) (QDate ''2024-01-01'') example_window
       = Raised ValueError example_window
   \<and> messages example_window = []"
proof -
  have g: "genfromtxt (file_lines (logfile_text [text_in_number_row])) ''2024-01-01''
      = Inl ValueError"
    by (simp add: text_in_number_row_def genfromtxt_defs strptime_defs char_defs)
  have "item_activated (example_fs text_in_number_row) (QDate ''2024-01-01'') example_window
       = Raised ValueError example_window"
    by (simp add: item_activated_def param_date_def example_window_def example_fs_def
        logs_fs_def g)
  then show ?thesis
    using g by (simp add: example_window_def empty_window_def)
qed

text \<open>
  C4, amended: for every log file that has a data row with a value in one of the ten
  numeric columns that \<^verbatim>\<open>numpy.int64\<close> does not accept, parsing that file fails as a
  whole: \<^verbatim>\<open>genfromtxt\<close> raises and gives no records. The exception is not caught: it
  leaves \<^verbatim>\<open>item_activated\<close> with the window as it was, no message shown and the
  detail table not changed.
\<close>

theorem bad_integer_fails_parse:
  assumes "logfiles w date = Some path"
    and "read_text fs path = Some text"
    and "first_values (file_lines text) = Some (vals, rest)"
    and "row \<in> set (fst (read_rows rest))"
    and "1 \<le> j" and "j \<le> 10"
    and "np_int64 (row ! j) = Inl e0"
  shows "\<exists>e. genfromtxt (file_lines text) date = Inl e
             \<and> item_activated fs (QDate date) w = Raised e w
             \<and> item_activated fs (QTableWidgetItem date) w = Raised e w"
proof -
  from genfromtxt_bad_integer[OF assms(3,4,5,6,7)] obtain e
    where e: "genfromtxt (file_lines text) date = Inl e"
    by blast
  then show ?thesis
    using assms(1,2) by (simp add: item_activated_def param_date_def)
qed

theorem bad_integer_fails_parse_witness:
  "(\<exists>e. genfromtxt (file_lines (logfile_text [bad_integer_row])) ''2024-01-01'' = Inl e
        \<and> item_activated (example_fs bad_integer_row) (QDate ''2024-01-01'') example_window
            = Raised e example_window)
   \<and> np_int64 ''5.5'' = Inl ValueError"
proof -
  have lf: "logfiles example_window ''2024-01-01'' = Some example_path"
    by (simp add: example_window_def example_path_def)
  have rt: "read_text (example_fs bad_integer_row) example_path
      = Some (logfile_text [bad_integer_row])"
    by (simp add: example_fs_def example_path_def logs_fs_def)
  have fv: "first_values (file_lines (logfile_text [bad_integer_row]))
      = Some (split_line example_header, [bad_integer_row @ [CR, LF]])"
    by (simp add: bad_integer_row_def logfile_text_def example_header_def split_line_def
        strip_def strip_chars_def Let_def char_defs)
  have some: "fst (read_rows [bad_integer_row @ [CR, LF]]) \<noteq> []"
    and v: "hd (fst (read_rows [bad_integer_row @ [CR, LF]])) ! 5 = ''5.5''"
    by (simp_all add: bad_integer_row_def split_line_def strip_def strip_chars_def
        usecols_def Let_def upt_conv_Cons char_defs)
  have mem: "hd (fst (read_rows [bad_integer_row @ [CR, LF]]))
      \<in> set (fst (read_rows [bad_integer_row @ [CR, LF]]))"
    using some by (rule hd_in_set)
  have bad: "np_int64 ''5.5'' = Inl ValueError"
    by (simp add: np_int64_def py_int_def parse_unsigned_def char_defs)
  have cell: "np_int64 (hd (fst (read_rows [bad_integer_row @ [CR, LF]])) ! 5) = Inl ValueError"
    unfolding v by (rule bad)
  have j: "(1::nat) \<le> 5" "(5::nat) \<le> 10"
    by simp_all
  from bad_integer_fails_parse[OF lf rt fv mem j cell]
  show ?thesis
    using bad by blast
qed

subsection \<open>What the date of a file depends on\<close>












end
